theory Spec2Isabelle
  imports Main
begin

section \<open>The brain service: one health route\<close>

text \<open>
  The program is the module \<^verbatim>\<open>apps/brain/app/main.py\<close>:
  \<^verbatim>\<open>
  from fastapi import FastAPI

  app = FastAPI(title="Voice Web Agent Brain")

  @app.get("/health")
  def health():
      return {"status": "ok", "service": "brain", "version": "0.1.0"}
  \<close>
  Its state is the module global \<open>app\<close> and the objects the program has built. The
  handler \<open>health\<close> and the two statements of the top level are embedded from the
  source. The constructor \<open>FastAPI\<close>, the decorator \<open>app.get\<close> and the dispatch of a request
  to a route are the web framework's, which is not part of the repository; the second
  subsection writes down what the framework does in them, as far as this module uses it:
  the routes the constructor and the decorator register, the router's choice of a route,
  and the response built from what a handler returns.
\<close>

subsection \<open>Python values and the object store\<close>

text \<open>
  A dict display builds a new object every time it is evaluated, so a dict is a cell of
  a store and the value of the display is a reference to the cell. The store is a list
  of cells; a reference is an index into it; allocation appends, so the reference of a
  new object is the length of the store before. Objects are never removed from the
  store. The only dict the module builds has \<open>str\<close> keys and \<open>str\<close> values, kept in
  insertion order.
\<close>

type_synonym pydict = "(string \<times> string) list"

type_synonym ref = nat

datatype exn = Exception string

subsection \<open>The framework, as the module calls it\<close>

text \<open>
  A request is what the server hands to the application: the method, the decoded path
  (without the query string), the query parameters, the headers and the body.
\<close>

record request =
  req_method :: string
  req_path :: string
  req_query :: "(string \<times> string) list"
  req_headers :: "(string \<times> string) list"
  req_body :: string

text \<open>
  The functions a route can point to: the module's \<open>health\<close>, and the four endpoints
  the framework's constructor defines for its own documentation pages.
\<close>

datatype callable = Openapi | Swagger_ui_html | Swagger_ui_redirect | Redoc_html | Health

record route =
  route_path :: string
  route_methods :: "string list"
  route_endpoint :: callable

record fastapi =
  title :: string
  routes :: "route list"

record state =
  app :: fastapi
  heap :: "pydict list"

text \<open>
  What a handler can declare as required of a request: a query parameter, a header, a
  body.
\<close>

datatype param = Query_param string | Header_param string | Request_body

text \<open>
  The body of a response is a byte string, or one of the framework's documentation
  pages, or the framework's list of validation errors; the text of the last two is the
  framework's own and is left abstract. Response headers are not modelled.
\<close>

datatype body = Bytes string | Document callable | Validation_errors "param list"

record response =
  status_code :: nat
  resp_body :: body

text \<open>
  \<open>add_route\<close> is how the framework registers its own endpoints: a plain route, which
  answers \<open>GET\<close> and, because it answers \<open>GET\<close>, \<open>HEAD\<close>. \<open>get\<close> is the decorator
  \<open>app.get(path)\<close> applied to a function: a route for the method \<open>GET\<close> alone. Both append
  to the route list.
\<close>

definition add_route :: "string \<Rightarrow> callable \<Rightarrow> fastapi \<Rightarrow> fastapi" where
  "add_route path endpoint a =
     a\<lparr>routes := routes a @
       [\<lparr>route_path = path, route_methods = [''GET'', ''HEAD''], route_endpoint = endpoint\<rparr>]\<rparr>"

definition get :: "string \<Rightarrow> callable \<Rightarrow> fastapi \<Rightarrow> fastapi" where
  "get path endpoint a =
     a\<lparr>routes := routes a @
       [\<lparr>route_path = path, route_methods = [''GET''], route_endpoint = endpoint\<rparr>]\<rparr>"

text \<open>
  The constructor, called with a title and every other argument at its default
  (\<open>openapi_url="/openapi.json"\<close>, \<open>docs_url="/docs"\<close>, \<open>redoc_url="/redoc"\<close>,
  \<open>swagger_ui_oauth2_redirect_url="/docs/oauth2-redirect"\<close>), sets the documentation
  routes up, in this order.
\<close>

definition FastAPI :: "string \<Rightarrow> fastapi" where
  "FastAPI t =
     add_route ''/redoc'' Redoc_html
       (add_route ''/docs/oauth2-redirect'' Swagger_ui_redirect
         (add_route ''/docs'' Swagger_ui_html
           (add_route ''/openapi.json'' Openapi \<lparr>title = t, routes = []\<rparr>)))"

text \<open>
  A path without parameters is compiled to the pattern \<open>^path$\<close>, matched from the start
  of the request's path. In Python's \<open>re\<close> the anchor \<open>$\<close> matches at the end of the
  string and also just before a newline that ends the string.
\<close>

definition path_regex_match :: "string \<Rightarrow> string \<Rightarrow> bool" where
  "path_regex_match path p \<longleftrightarrow> p = path \<or> p = path @ [CHR 0x0A]"

datatype match = NONE | PARTIAL | FULL

definition matches :: "route \<Rightarrow> request \<Rightarrow> match" where
  "matches r rq =
     (if path_regex_match (route_path r) (req_path rq)
      then (if req_method rq \<in> set (route_methods r) then FULL else PARTIAL)
      else NONE)"

text \<open>
  The router's loop over the routes: the first full match is taken at once; the first
  partial match (the path fits, the method does not) is kept for the case that no route
  matches in full.
\<close>

datatype routing = Full route | Partial route | No_match

fun find_route :: "route list \<Rightarrow> request \<Rightarrow> route option \<Rightarrow> routing" where
  "find_route [] rq partial = (case partial of None \<Rightarrow> No_match | Some r \<Rightarrow> Partial r)"
| "find_route (r # rs) rq partial =
     (case matches r rq of
        FULL \<Rightarrow> Full r
      | PARTIAL \<Rightarrow> find_route rs rq (if partial = None then Some r else partial)
      | NONE \<Rightarrow> find_route rs rq partial)"

text \<open>
  When no route matches, the router (with \<open>redirect_slashes\<close> at its default) tries the
  path with its trailing slashes stripped, or with one slash added, and redirects when
  some route matches that path under any method.
\<close>

definition rstrip_slash :: "string \<Rightarrow> string" where
  "rstrip_slash p = rev (dropWhile (\<lambda>c. c = CHR ''/'') (rev p))"

definition redirect_path :: "string \<Rightarrow> string" where
  "redirect_path p =
     (if p \<noteq> [] \<and> last p = CHR ''/'' then rstrip_slash p else p @ ''/'')"

definition redirects :: "route list \<Rightarrow> request \<Rightarrow> bool" where
  "redirects rs rq \<longleftrightarrow>
     req_path rq \<noteq> ''/'' \<and>
     list_ex (\<lambda>r. matches r (rq\<lparr>req_path := redirect_path (req_path rq)\<rparr>) \<noteq> NONE) rs"

text \<open>
  \<open>json.dumps\<close> as the framework's JSON response calls it (\<open>ensure_ascii=False\<close>,
  separators \<open>,\<close> and \<open>:\<close> without spaces), on a dict of strings: the items in the dict's
  order; in a string, the quote, the backslash and the control characters are escaped.
\<close>

definition hex_digit :: "nat \<Rightarrow> char" where
  "hex_digit n = (''0123456789abcdef'' ! (n mod 16))"

definition escape_char :: "char \<Rightarrow> string" where
  "escape_char c =
     (if c = CHR 0x22 then [CHR 0x5C, CHR 0x22]
      else if c = CHR 0x5C then [CHR 0x5C, CHR 0x5C]
      else if c = CHR 0x0A then [CHR 0x5C, CHR ''n'']
      else if c = CHR 0x0D then [CHR 0x5C, CHR ''r'']
      else if c = CHR 0x09 then [CHR 0x5C, CHR ''t'']
      else if c = CHR 0x08 then [CHR 0x5C, CHR ''b'']
      else if c = CHR 0x0C then [CHR 0x5C, CHR ''f'']
      else if of_char c < (0x20 :: nat)
        then [CHR 0x5C, CHR ''u'', CHR ''0'', CHR ''0'',
              hex_digit (of_char c div 16), hex_digit (of_char c)]
      else [c])"

definition json_string :: "string \<Rightarrow> string" where
  "json_string s = [CHR 0x22] @ concat (map escape_char s) @ [CHR 0x22]"

fun json_items :: "pydict \<Rightarrow> string" where
  "json_items [] = []"
| "json_items [(k, v)] = json_string k @ '':'' @ json_string v"
| "json_items ((k, v) # kvs) = json_string k @ '':'' @ json_string v @ '','' @ json_items kvs"

definition json_dumps :: "pydict \<Rightarrow> string" where
  "json_dumps d = ''{'' @ json_items d @ ''}''"

definition JSONResponse :: "nat \<Rightarrow> pydict \<Rightarrow> response" where
  "JSONResponse code content = \<lparr>status_code = code, resp_body = Bytes (json_dumps content)\<rparr>"

text \<open>
  The framework's answers of its own: an HTTP error is a JSON object with the status
  phrase under \<open>detail\<close>; a redirect is a 307 with an empty body; an exception that
  escapes a handler is a 500 with a plain text.
\<close>

definition not_found :: response where
  "not_found = JSONResponse 404 [(''detail'', ''Not Found'')]"

definition method_not_allowed :: response where
  "method_not_allowed = JSONResponse 405 [(''detail'', ''Method Not Allowed'')]"

definition unprocessable :: "param list \<Rightarrow> response" where
  "unprocessable errors = \<lparr>status_code = 422, resp_body = Validation_errors errors\<rparr>"

definition RedirectResponse :: response where
  "RedirectResponse = \<lparr>status_code = 307, resp_body = Bytes []\<rparr>"

definition server_error :: response where
  "server_error = \<lparr>status_code = 500, resp_body = Bytes ''Internal Server Error''\<rparr>"

subsection \<open>The module\<close>

text \<open>
  \<open>health\<close> takes no argument, so its model has the program state as its only input.
  It evaluates one dict display and returns the new object: the result is the new
  reference, and the state is the old one with the new cell. It has no \<open>raise\<close> and calls
  nothing, so an exception, the left summand of the result, is never produced.
\<close>

definition new_dict :: "pydict \<Rightarrow> state \<Rightarrow> ref \<times> state" where
  "new_dict items s = (length (heap s), s\<lparr>heap := heap s @ [items]\<rparr>)"

definition health :: "state \<Rightarrow> (exn + ref) \<times> state" where
  "health s =
     (case new_dict [(''status'', ''ok''), (''service'', ''brain''), (''version'', ''0.1.0'')] s of
        (d, s') \<Rightarrow> (Inr d, s'))"

text \<open>
  Reading a reference gives the object it points to; a number that is not a reference
  of the store gives nothing. \<open>returned_object\<close> is the object a call has returned,
  read in the state the call has left.
\<close>

definition deref :: "state \<Rightarrow> ref \<Rightarrow> pydict option" where
  "deref s d = (if d < length (heap s) then Some (heap s ! d) else None)"

definition returned_object :: "(exn + ref) \<times> state \<Rightarrow> pydict option" where
  "returned_object c = (case c of (Inl e, s') \<Rightarrow> None | (Inr d, s') \<Rightarrow> deref s' d)"

text \<open>
  The module's top level, run once when the module is imported: the application is
  built, and the decorator registers \<open>health\<close> under \<open>GET /health\<close>.
\<close>

definition main_module :: state where
  "main_module = \<lparr>app = get ''/health'' Health (FastAPI ''Voice Web Agent Brain''), heap = []\<rparr>"

subsection \<open>Serving a request\<close>

text \<open>
  The parameters a handler declares are what the framework requires of a request before
  it calls the handler; a request that lacks one is answered with 422 and the handler is
  not called. \<open>def health():\<close> declares none, and the framework's documentation endpoints
  take the request as it is.
\<close>

fun parameters :: "callable \<Rightarrow> param list" where
  "parameters Health = []"
| "parameters Openapi = []"
| "parameters Swagger_ui_html = []"
| "parameters Swagger_ui_redirect = []"
| "parameters Redoc_html = []"

fun missing :: "request \<Rightarrow> param \<Rightarrow> bool" where
  "missing rq (Query_param n) = (n \<notin> fst ` set (req_query rq))"
| "missing rq (Header_param n) = (n \<notin> fst ` set (req_headers rq))"
| "missing rq Request_body = (req_body rq = [])"

text \<open>
  Calling the endpoint of the matched route. For \<open>health\<close> the framework calls the
  function without arguments and sends the returned dict as a JSON response with the
  default status 200. The documentation endpoints build their page.
\<close>

definition run_endpoint :: "callable \<Rightarrow> request \<Rightarrow> state \<Rightarrow> response \<times> state" where
  "run_endpoint f rq s =
     (if filter (missing rq) (parameters f) \<noteq> []
      then (unprocessable (filter (missing rq) (parameters f)), s)
      else case f of
        Health \<Rightarrow>
          (case health s of
             (Inl e, s') \<Rightarrow> (server_error, s')
           | (Inr d, s') \<Rightarrow>
               (case deref s' d of
                  Some content \<Rightarrow> (JSONResponse 200 content, s')
                | None \<Rightarrow> (server_error, s')))
      | _ \<Rightarrow> (\<lparr>status_code = 200, resp_body = Document f\<rparr>, s))"

definition handle :: "state \<Rightarrow> request \<Rightarrow> response \<times> state" where
  "handle s rq =
     (case find_route (routes (app s)) rq None of
        Full r \<Rightarrow> run_endpoint (route_endpoint r) rq s
      | Partial r \<Rightarrow> (method_not_allowed, s)
      | No_match \<Rightarrow>
          (if redirects (routes (app s)) rq then (RedirectResponse, s) else (not_found, s)))"

text \<open>Invoking the handler \<open>n\<close> times in a row, keeping every result.\<close>

fun invocations :: "nat \<Rightarrow> state \<Rightarrow> (exn + ref) list \<times> state" where
  "invocations 0 s = ([], s)"
| "invocations (Suc n) s =
     (case health s of (r, s') \<Rightarrow> (case invocations n s' of (rs, s'') \<Rightarrow> (r # rs, s'')))"

text \<open>Serving a list of requests one after the other, keeping every response.\<close>

fun serve :: "state \<Rightarrow> request list \<Rightarrow> response list \<times> state" where
  "serve s [] = ([], s)"
| "serve s (rq # rqs) =
     (case handle s rq of (r, s') \<Rightarrow> (case serve s' rqs of (rs, s'') \<Rightarrow> (r # rs, s'')))"

text \<open>
  A \<open>GET /health\<close> request with the given query parameters, headers and body, and four
  requests used as concrete inputs below.
\<close>

definition GET_health ::
  "(string \<times> string) list \<Rightarrow> (string \<times> string) list \<Rightarrow> string \<Rightarrow> request" where
  "GET_health q hs b =
     \<lparr>req_method = ''GET'', req_path = ''/health'', req_query = q, req_headers = hs,
        req_body = b\<rparr>"

definition health_slash_request :: request where
  "health_slash_request =
     \<lparr>req_method = ''GET'', req_path = ''/health/'', req_query = [], req_headers = [],
        req_body = []\<rparr>"

definition docs_request :: request where
  "docs_request =
     \<lparr>req_method = ''GET'', req_path = ''/docs'', req_query = [], req_headers = [],
        req_body = []\<rparr>"

definition post_health_request :: request where
  "post_health_request =
     \<lparr>req_method = ''POST'', req_path = ''/health'', req_query = [], req_headers = [],
        req_body = []\<rparr>"

definition nowhere_request :: request where
  "nowhere_request =
     \<lparr>req_method = ''GET'', req_path = ''/nowhere'', req_query = [], req_headers = [],
        req_body = []\<rparr>"

subsection \<open>Requests in flight at the same time\<close>

text \<open>
  The framework calls a plain \<open>def\<close> handler on a worker thread and builds the response
  from the returned object afterwards, so a request that the router hands to \<open>health\<close>
  takes two steps on the state the requests share: the call of the handler, and the
  building of the response from the object the call has returned. Every other request
  is answered in one step. A task is a request in flight: received, or with the
  handler's result in hand, or answered.
\<close>

datatype task = Received request | Returned "exn + ref" | Sent response

definition calls_health :: "state \<Rightarrow> request \<Rightarrow> bool" where
  "calls_health s rq \<longleftrightarrow>
     (case find_route (routes (app s)) rq None of
        Full r \<Rightarrow> route_endpoint r = Health \<and> filter (missing rq) (parameters Health) = []
      | Partial r \<Rightarrow> False
      | No_match \<Rightarrow> False)"

definition begin_request :: "state \<Rightarrow> request \<Rightarrow> task \<times> state" where
  "begin_request s rq =
     (if calls_health s rq then (case health s of (res, s') \<Rightarrow> (Returned res, s'))
      else (case handle s rq of (resp, s') \<Rightarrow> (Sent resp, s')))"

definition finish_request :: "state \<Rightarrow> exn + ref \<Rightarrow> response" where
  "finish_request s res =
     (case res of
        Inl e \<Rightarrow> server_error
      | Inr d \<Rightarrow>
          (case deref s d of Some content \<Rightarrow> JSONResponse 200 content | None \<Rightarrow> server_error))"

fun step_task :: "state \<Rightarrow> task \<Rightarrow> task \<times> state" where
  "step_task s (Received rq) = begin_request s rq"
| "step_task s (Returned res) = (Sent (finish_request s res), s)"
| "step_task s (Sent resp) = (Sent resp, s)"

text \<open>
  A schedule is the list of the tasks' numbers in the order in which they take their
  steps. Any task may take the next step at any time: no step waits for another task,
  and there is no lock. A number that names no task is passed over.
\<close>

fun run :: "nat list \<Rightarrow> state \<times> task list \<Rightarrow> state \<times> task list" where
  "run [] c = c"
| "run (i # sched) (s, ts) =
     (if i < length ts
      then (case step_task s (ts ! i) of (t', s') \<Rightarrow> run sched (s', ts[i := t']))
      else run sched (s, ts))"

text \<open>
  The \<open>GET /health\<close> requests with the given query parameters, headers and bodies, all
  received and none begun; and the number of steps a task has taken.
\<close>

definition in_flight ::
  "((string \<times> string) list \<times> (string \<times> string) list \<times> string) list \<Rightarrow> task list" where
  "in_flight args = map (\<lambda>(q, hs, b). Received (GET_health q hs b)) args"

fun phase :: "task \<Rightarrow> nat" where
  "phase (Received rq) = 0"
| "phase (Returned res) = 1"
| "phase (Sent resp) = 2"

text \<open>
  The invariant of a run that starts from the store \<open>h\<close> with \<open>GET /health\<close> requests only:
  the application object is the module's, the objects of \<open>h\<close> are as they were, every
  later object is a health dict, and every task is a \<open>GET /health\<close> still to begin, or holds
  a reference to one of the later objects, or has been answered with the health response.
\<close>

definition good_task :: "nat \<Rightarrow> nat \<Rightarrow> task \<Rightarrow> bool" where
  "good_task lo hi t =
     (case t of
        Received rq \<Rightarrow> req_method rq = ''GET'' \<and> req_path rq = ''/health''
      | Returned res \<Rightarrow> (case res of Inl e \<Rightarrow> False | Inr d \<Rightarrow> lo \<le> d \<and> d < hi)
      | Sent resp \<Rightarrow>
          resp = JSONResponse 200
            [(''status'', ''ok''), (''service'', ''brain''), (''version'', ''0.1.0'')])"

definition good :: "pydict list \<Rightarrow> state \<times> task list \<Rightarrow> bool" where
  "good h c \<longleftrightarrow>
     app (fst c) = app main_module \<and>
     take (length h) (heap (fst c)) = h \<and>
     length h \<le> length (heap (fst c)) \<and>
     list_all
       (\<lambda>cell. cell = [(''status'', ''ok''), (''service'', ''brain''), (''version'', ''0.1.0'')])
       (drop (length h) (heap (fst c))) \<and>
     list_all (good_task (length h) (length (heap (fst c)))) (snd c)"

section \<open>Properties\<close>

subsection \<open>Auxiliary facts\<close>

lemma health_eq:
  "health s = (Inr (length (heap s)),
     s\<lparr>heap := heap s @ [[(''status'', ''ok''), (''service'', ''brain''), (''version'', ''0.1.0'')]]\<rparr>)"
  by (simp add: health_def new_dict_def)

lemma json_health:
  \<open>json_dumps [(''status'', ''ok''), (''service'', ''brain''), (''version'', ''0.1.0'')]
     = ''{"status":"ok","service":"brain","version":"0.1.0"}''\<close>
  by (simp add: json_dumps_def json_string_def escape_char_def)

lemma returned_health:
  "returned_object (health s) =
     Some [(''status'', ''ok''), (''service'', ''brain''), (''version'', ''0.1.0'')]"
  by (simp add: returned_object_def health_eq deref_def)

lemma routes_main:
  "routes (app main_module) =
     [\<lparr>route_path = ''/openapi.json'', route_methods = [''GET'', ''HEAD''],
         route_endpoint = Openapi\<rparr>,
      \<lparr>route_path = ''/docs'', route_methods = [''GET'', ''HEAD''],
         route_endpoint = Swagger_ui_html\<rparr>,
      \<lparr>route_path = ''/docs/oauth2-redirect'', route_methods = [''GET'', ''HEAD''],
         route_endpoint = Swagger_ui_redirect\<rparr>,
      \<lparr>route_path = ''/redoc'', route_methods = [''GET'', ''HEAD''],
         route_endpoint = Redoc_html\<rparr>,
      \<lparr>route_path = ''/health'', route_methods = [''GET''], route_endpoint = Health\<rparr>]"
  by (simp add: main_module_def get_def FastAPI_def add_route_def)

lemma run_health:
  "run_endpoint Health rq s =
     (JSONResponse 200 [(''status'', ''ok''), (''service'', ''brain''), (''version'', ''0.1.0'')],
      s\<lparr>heap := heap s @
        [[(''status'', ''ok''), (''service'', ''brain''), (''version'', ''0.1.0'')]]\<rparr>)"
  by (simp add: run_endpoint_def health_eq deref_def)

lemma find_health:
  "find_route (routes (app main_module))
     \<lparr>req_method = ''GET'', req_path = ''/health'', req_query = q, req_headers = hs,
        req_body = b\<rparr> None
   = Full \<lparr>route_path = ''/health'', route_methods = [''GET''], route_endpoint = Health\<rparr>"
  by (simp add: routes_main matches_def path_regex_match_def)

lemma handle_health:
  "handle (main_module\<lparr>heap := h\<rparr>)
     \<lparr>req_method = ''GET'', req_path = ''/health'', req_query = q, req_headers = hs,
        req_body = b\<rparr>
   = (JSONResponse 200 [(''status'', ''ok''), (''service'', ''brain''), (''version'', ''0.1.0'')],
      main_module\<lparr>heap := h @
        [[(''status'', ''ok''), (''service'', ''brain''), (''version'', ''0.1.0'')]]\<rparr>)"
  by (simp add: handle_def find_health run_health)

lemma serve_health:
  "serve (main_module\<lparr>heap := h\<rparr>)
     (replicate n \<lparr>req_method = ''GET'', req_path = ''/health'', req_query = q,
        req_headers = hs, req_body = b\<rparr>)
   = (replicate n
        (JSONResponse 200 [(''status'', ''ok''), (''service'', ''brain''), (''version'', ''0.1.0'')]),
      main_module\<lparr>heap := h @
        replicate n [(''status'', ''ok''), (''service'', ''brain''), (''version'', ''0.1.0'')]\<rparr>)"
proof (induction n arbitrary: h)
  case 0
  show ?case by simp
next
  case (Suc n)
  show ?case
    by (simp add: handle_health Suc.IH)
qed

lemma invocations_eq:
  "invocations n s =
     (map Inr [length (heap s) ..< length (heap s) + n],
      s\<lparr>heap := heap s @
        replicate n [(''status'', ''ok''), (''service'', ''brain''), (''version'', ''0.1.0'')]\<rparr>)"
proof (induction n arbitrary: s)
  case 0
  show ?case by simp
next
  case (Suc n)
  let ?p = "[(''status'', ''ok''), (''service'', ''brain''), (''version'', ''0.1.0'')]"
  let ?s' = "s\<lparr>heap := heap s @ [?p]\<rparr>"
  have step: "invocations (Suc n) s =
      (Inr (length (heap s)) # fst (invocations n ?s'), snd (invocations n ?s'))"
    by (simp add: health_eq split: prod.splits)
  have upt: "[length (heap s) ..< length (heap s) + Suc n] =
      length (heap s) # [Suc (length (heap s)) ..< Suc (length (heap s)) + n]"
    by (simp add: upt_conv_Cons del: upt_Suc)
  show ?case
    unfolding step Suc.IH [of ?s'] upt
    by (simp del: upt_Suc)
qed

text \<open>Routing: what a full match and no match at all mean.\<close>

lemma find_route_Full:
  "find_route rs rq p = Full r \<Longrightarrow> r \<in> set rs \<and> matches r rq = FULL"
  by (induction rs arbitrary: p) (auto split: option.splits match.splits)

lemma find_route_none:
  "list_all (\<lambda>r. matches r rq = NONE) rs \<Longrightarrow> find_route rs rq None = No_match"
  by (induction rs) auto

lemma run_endpoint_other:
  "f \<noteq> Health \<Longrightarrow> run_endpoint f rq s = (\<lparr>status_code = 200, resp_body = Document f\<rparr>, s)"
  by (cases f) (simp_all add: run_endpoint_def)

text \<open>
  No request changes the application object, so every state the service reaches from
  \<open>main_module\<close> is \<open>main_module\<close> with some store; the theorems about requests are stated
  for \<open>main_module\<lparr>heap := h\<rparr>\<close> with \<open>h\<close> arbitrary.
\<close>

lemma handle_app: "app (snd (handle s rq)) = app s"
proof (cases "find_route (routes (app s)) rq None")
  case (Full r)
  show ?thesis
  proof (cases "route_endpoint r = Health")
    case True
    then show ?thesis by (simp add: handle_def Full run_health)
  next
    case False
    then show ?thesis by (simp add: handle_def Full run_endpoint_other)
  qed
next
  case (Partial r)
  then show ?thesis by (simp add: handle_def)
next
  case No_match
  then show ?thesis by (simp add: handle_def)
qed

lemma serve_app: "app (snd (serve s rqs)) = app s"
proof (induction rqs arbitrary: s)
  case Nil
  show ?case by simp
next
  case (Cons rq rqs)
  have "app (snd (serve (snd (handle s rq)) rqs)) = app (snd (handle s rq))"
    by (rule Cons.IH)
  then show ?case
    by (simp add: handle_app split: prod.splits) (metis handle_app snd_conv)
qed

lemma running_state:
  "app s = app main_module \<Longrightarrow> s = main_module\<lparr>heap := heap s\<rparr>"
  by (cases s) (simp add: main_module_def)

lemma handle_health_again:
  "resp_body (fst (handle
      (snd (serve (snd (handle (main_module\<lparr>heap := h\<rparr>) (GET_health q hs b))) rqs))
      (GET_health q hs b)))
   = resp_body (fst (handle (main_module\<lparr>heap := h\<rparr>) (GET_health q hs b)))"
proof -
  let ?s = "snd (serve (snd (handle (main_module\<lparr>heap := h\<rparr>) (GET_health q hs b))) rqs)"
  have "app ?s = app main_module"
    by (simp add: serve_app handle_app)
  then have "?s = main_module\<lparr>heap := heap ?s\<rparr>"
    by (rule running_state)
  then have "fst (handle ?s (GET_health q hs b)) =
      JSONResponse 200 [(''status'', ''ok''), (''service'', ''brain''), (''version'', ''0.1.0'')]"
    by (metis GET_health_def handle_health fst_conv)
  then show ?thesis
    by (simp add: GET_health_def handle_health)
qed

text \<open>The bodies the framework sends of its own are not the health payload.\<close>

lemma error_bodies:
  \<open>resp_body method_not_allowed
     \<noteq> Bytes ''{"status":"ok","service":"brain","version":"0.1.0"}''\<close>
  \<open>resp_body not_found \<noteq> Bytes ''{"status":"ok","service":"brain","version":"0.1.0"}''\<close>
  \<open>resp_body RedirectResponse
     \<noteq> Bytes ''{"status":"ok","service":"brain","version":"0.1.0"}''\<close>
  by (simp_all add: method_not_allowed_def not_found_def RedirectResponse_def JSONResponse_def
      json_dumps_def json_string_def escape_char_def)

lemma no_payload:
  assumes "\<not> (req_method rq = ''GET'' \<and> path_regex_match ''/health'' (req_path rq))"
  shows \<open>resp_body (fst (handle (main_module\<lparr>heap := h\<rparr>) rq))
           \<noteq> Bytes ''{"status":"ok","service":"brain","version":"0.1.0"}''\<close>
proof (cases "find_route (routes (app main_module)) rq None")
  case (Full r)
  then have r: "r \<in> set (routes (app main_module))" and m: "matches r rq = FULL"
    using find_route_Full by blast+
  have "route_endpoint r \<noteq> Health"
  proof
    assume "route_endpoint r = Health"
    with r have "r = \<lparr>route_path = ''/health'', route_methods = [''GET''],
        route_endpoint = Health\<rparr>"
      by (auto simp add: routes_main)
    with m have "req_method rq = ''GET'' \<and> path_regex_match ''/health'' (req_path rq)"
      by (simp add: matches_def split: if_splits)
    with assms show False by simp
  qed
  then show ?thesis
    by (simp add: handle_def Full run_endpoint_other)
next
  case (Partial r)
  then show ?thesis
    by (simp add: handle_def error_bodies)
next
  case No_match
  then show ?thesis
    by (simp add: handle_def error_bodies)
qed

lemma find_route_Partial:
  "list_all (\<lambda>r. matches r rq \<noteq> FULL) rs \<Longrightarrow>
   list_ex (\<lambda>r. matches r rq = PARTIAL) rs \<or> p \<noteq> None \<Longrightarrow>
   \<exists>r. find_route rs rq p = Partial r"
proof (induction rs arbitrary: p)
  case Nil
  then show ?case by (cases p) simp_all
next
  case (Cons r rs)
  show ?case
  proof (cases "matches r rq")
    case NONE
    with Cons.prems have "list_all (\<lambda>r. matches r rq \<noteq> FULL) rs"
      and "list_ex (\<lambda>r. matches r rq = PARTIAL) rs \<or> p \<noteq> None"
      by simp_all
    then have "\<exists>r'. find_route rs rq p = Partial r'"
      by (rule Cons.IH)
    with NONE show ?thesis by simp
  next
    case PARTIAL
    from Cons.prems have "list_all (\<lambda>r. matches r rq \<noteq> FULL) rs"
      by simp
    moreover have "list_ex (\<lambda>r. matches r rq = PARTIAL) rs \<or>
        (if p = None then Some r else p) \<noteq> None"
      by simp
    ultimately have "\<exists>r'. find_route rs rq (if p = None then Some r else p) = Partial r'"
      by (rule Cons.IH)
    with PARTIAL show ?thesis by simp
  next
    case FULL
    with Cons.prems show ?thesis by simp
  qed
qed

lemma not_allowed:
  assumes "list_all (\<lambda>r. matches r rq \<noteq> FULL) (routes (app main_module))"
    and "list_ex (\<lambda>r. matches r rq = PARTIAL) (routes (app main_module))"
  shows "fst (handle (main_module\<lparr>heap := h\<rparr>) rq) = method_not_allowed"
proof -
  from assms obtain r where "find_route (routes (app main_module)) rq None = Partial r"
    using find_route_Partial by blast
  then show ?thesis by (simp add: handle_def)
qed

lemma nowhere:
  assumes "list_all (\<lambda>r. matches r rq = NONE) (routes (app main_module))"
    and "\<not> redirects (routes (app main_module)) rq"
  shows "fst (handle (main_module\<lparr>heap := h\<rparr>) rq) = not_found"
proof -
  have "find_route (routes (app main_module)) rq None = No_match"
    using assms(1) by (rule find_route_none)
  with assms(2) show ?thesis by (simp add: handle_def)
qed

subsection \<open>The health route\<close>

text \<open>
  C1. Every \<open>GET /health\<close>, whatever its query, headers and body and whatever objects
  the program has built before, is answered with status 200 and the body
  \<^verbatim>\<open>{"status":"ok","service":"brain","version":"0.1.0"}\<close>; the object the handler
  returns has exactly the three fields \<open>status\<close>, \<open>service\<close> and \<open>version\<close> with the
  values \<open>ok\<close>, \<open>brain\<close> and \<open>0.1.0\<close>.
\<close>

theorem get_health_ok:
  \<open>returned_object (health s) =
     Some [(''status'', ''ok''), (''service'', ''brain''), (''version'', ''0.1.0'')] \<and>
   fst (handle (main_module\<lparr>heap := h\<rparr>)
          \<lparr>req_method = ''GET'', req_path = ''/health'', req_query = q, req_headers = hs,
             req_body = b\<rparr>)
     = \<lparr>status_code = 200,
        resp_body = Bytes ''{"status":"ok","service":"brain","version":"0.1.0"}''\<rparr>\<close>
  by (simp add: returned_health handle_health JSONResponse_def json_health)

text \<open>
  C2. Repeating a \<open>GET /health\<close> gives the same bytes: the body of the response to a
  \<open>GET /health\<close> is a byte string, and when the same request is served again, after any
  list of requests in between, the body of the second response is the same byte string.
\<close>

theorem get_health_idempotent:
  "(\<exists>bytes. resp_body (fst (handle (main_module\<lparr>heap := h\<rparr>) (GET_health q hs b)))
      = Bytes bytes) \<and>
   resp_body (fst (handle
      (snd (serve (snd (handle (main_module\<lparr>heap := h\<rparr>) (GET_health q hs b))) rqs))
      (GET_health q hs b)))
   = resp_body (fst (handle (main_module\<lparr>heap := h\<rparr>) (GET_health q hs b)))"
  by (simp add: handle_health_again) (simp add: GET_health_def handle_health JSONResponse_def)

subsection \<open>The handler\<close>

text \<open>
  C3. The handler has no side effect: a call leaves the application object as it was
  and changes no object that existed before the call. The one difference between the
  state before and the state after is the new object, which is the result of the call
  (a function that builds and returns a new object is free of side effects in this
  sense, the usual one where objects are allocated). It is a function of no input: the
  object it returns is the same whatever the state \<open>s\<close> or \<open>s'\<close> it is called in.
\<close>

theorem health_no_side_effects:
  "app (snd (health s)) = app s \<and>
   take (length (heap s)) (heap (snd (health s))) = heap s \<and>
   length (heap (snd (health s))) = Suc (length (heap s)) \<and>
   fst (health s) = Inr (length (heap s)) \<and>
   returned_object (health s) = returned_object (health s')"
proof -
  have "returned_object (health s) = returned_object (health s')"
    by (simp add: returned_health)
  moreover have "app (snd (health s)) = app s \<and>
      take (length (heap s)) (heap (snd (health s))) = heap s \<and>
      length (heap (snd (health s))) = Suc (length (heap s)) \<and>
      fst (health s) = Inr (length (heap s))"
    by (simp add: health_eq)
  ultimately show ?thesis by blast
qed

text \<open>
  C4. The handler always returns normally: in every state its result is a value and
  never an exception, and the response to \<open>GET /health\<close> is never the 500 the framework
  sends for a handler that raised.
\<close>

theorem health_always_returns:
  "(\<exists>d. fst (health s) = Inr d) \<and> (\<forall>e. fst (health s) \<noteq> Inl e) \<and>
   status_code (fst (handle (main_module\<lparr>heap := h\<rparr>)
      \<lparr>req_method = ''GET'', req_path = ''/health'', req_query = q, req_headers = hs,
         req_body = b\<rparr>)) = 200"
  by (simp add: health_eq handle_health JSONResponse_def)

text \<open>
  C7. Every invocation builds a new object. In \<open>n\<close> invocations in a row, from any state,
  the \<open>n\<close> results are references to pairwise distinct objects; none of them existed
  before; each still holds the three fields after all later invocations (no invocation
  changes the object of another); and the application object and the objects that
  existed before are as they were, so no invocation has stored its object anywhere. The
  service invokes the handler once for every \<open>GET /health\<close>: \<open>n\<close> requests leave \<open>n\<close> new
  objects and nothing else.
\<close>

theorem health_fresh_per_invocation:
  "distinct (fst (invocations n s)) \<and>
   list_all (\<lambda>r. case r of Inl e \<Rightarrow> False
                 | Inr d \<Rightarrow> length (heap s) \<le> d \<and>
                     deref (snd (invocations n s)) d =
                       Some [(''status'', ''ok''), (''service'', ''brain''), (''version'', ''0.1.0'')])
     (fst (invocations n s)) \<and>
   length (fst (invocations n s)) = n \<and>
   app (snd (invocations n s)) = app s \<and>
   take (length (heap s)) (heap (snd (invocations n s))) = heap s \<and>
   snd (serve (main_module\<lparr>heap := h\<rparr>) (replicate n (GET_health q hs b))) =
     main_module\<lparr>heap := h @
       replicate n [(''status'', ''ok''), (''service'', ''brain''), (''version'', ''0.1.0'')]\<rparr>"
proof -
  have "distinct (fst (invocations n s))"
    by (simp add: invocations_eq distinct_map)
  moreover have "list_all (\<lambda>r. case r of Inl e \<Rightarrow> False
                 | Inr d \<Rightarrow> length (heap s) \<le> d \<and>
                     deref (snd (invocations n s)) d =
                       Some [(''status'', ''ok''), (''service'', ''brain''), (''version'', ''0.1.0'')])
     (fst (invocations n s))"
    by (auto simp add: invocations_eq list_all_iff deref_def nth_append)
  moreover have "length (fst (invocations n s)) = n"
    by (simp add: invocations_eq)
  moreover have "app (snd (invocations n s)) = app s"
    by (simp add: invocations_eq)
  moreover have "take (length (heap s)) (heap (snd (invocations n s))) = heap s"
    by (simp add: invocations_eq)
  moreover have "snd (serve (main_module\<lparr>heap := h\<rparr>) (replicate n (GET_health q hs b))) =
     main_module\<lparr>heap := h @
       replicate n [(''status'', ''ok''), (''service'', ''brain''), (''version'', ''0.1.0'')]\<rparr>"
    by (simp add: GET_health_def serve_health)
  ultimately show ?thesis by blast
qed

text \<open>
  C8. The endpoint accepts no input. The handler declares no parameter, so the
  framework finds nothing missing in any request and validates nothing; and a
  \<open>GET /health\<close> with no query parameter, no header and no body gets the 200 response
  with the health payload.
\<close>

theorem health_accepts_no_input:
  \<open>parameters Health = [] \<and>
   (\<forall>rq. filter (missing rq) (parameters Health) = []) \<and>
   fst (handle (main_module\<lparr>heap := h\<rparr>)
          \<lparr>req_method = ''GET'', req_path = ''/health'', req_query = [], req_headers = [],
             req_body = []\<rparr>)
     = \<lparr>status_code = 200,
        resp_body = Bytes ''{"status":"ok","service":"brain","version":"0.1.0"}''\<rparr>\<close>
  by (simp add: handle_health JSONResponse_def json_health)

text \<open>
  C9. The response does not depend on the request or on the state. The objects that
  two calls of the handler return in any two states are equal, and any two
  \<open>GET /health\<close> requests, with any query parameters, headers and bodies, served from any
  two stores, get equal responses.
\<close>

theorem health_noninterference:
  "returned_object (health s1) = returned_object (health s2) \<and>
   fst (handle (main_module\<lparr>heap := h1\<rparr>)
          \<lparr>req_method = ''GET'', req_path = ''/health'', req_query = q1, req_headers = hs1,
             req_body = b1\<rparr>)
   = fst (handle (main_module\<lparr>heap := h2\<rparr>)
          \<lparr>req_method = ''GET'', req_path = ''/health'', req_query = q2, req_headers = hs2,
             req_body = b2\<rparr>)"
  by (simp add: returned_health handle_health)

text \<open>
  C10. The dict the handler returns has the keys \<open>status\<close>, \<open>service\<close>, \<open>version\<close>, in
  this order, on every invocation; the body of the response is the JSON text of this
  dict, and its keys stand in the same order.
\<close>

theorem health_key_order:
  \<open>map_option (map fst) (returned_object (health s))
     = Some [''status'', ''service'', ''version''] \<and>
   map_option (\<lambda>d. Bytes (json_dumps d)) (returned_object (health s))
     = Some (resp_body (fst (handle (main_module\<lparr>heap := h\<rparr>)
          \<lparr>req_method = ''GET'', req_path = ''/health'', req_query = q, req_headers = hs,
             req_body = b\<rparr>))) \<and>
   resp_body (fst (handle (main_module\<lparr>heap := h\<rparr>)
          \<lparr>req_method = ''GET'', req_path = ''/health'', req_query = q, req_headers = hs,
             req_body = b\<rparr>))
     = Bytes ''{"status":"ok","service":"brain","version":"0.1.0"}''\<close>
  by (simp add: returned_health handle_health JSONResponse_def json_health)

subsection \<open>Requests served at the same time\<close>

text \<open>
  Taken one right after the other, the two steps of a request are the sequential
  \<open>handle\<close>.
\<close>

lemma two_steps_handle:
  "(case begin_request s rq of (t, s') \<Rightarrow> step_task s' t) =
     (case handle s rq of (resp, s') \<Rightarrow> (Sent resp, s'))"
proof (cases "calls_health s rq")
  case False
  then show ?thesis by (simp add: begin_request_def split: prod.splits)
next
  case True
  then obtain r where r: "find_route (routes (app s)) rq None = Full r"
    and h: "route_endpoint r = Health" and m: "filter (missing rq) (parameters Health) = []"
    by (auto simp add: calls_health_def split: routing.splits)
  have "handle s rq = (case health s of (res, s') \<Rightarrow> (finish_request s' res, s'))"
    using m by (simp add: handle_def r h run_endpoint_def finish_request_def health_eq
        split: option.splits)
  with True show ?thesis
    by (simp add: begin_request_def split: prod.splits)
qed

lemma good_task_mono: "good_task lo hi t \<Longrightarrow> hi \<le> hi' \<Longrightarrow> good_task lo hi' t"
  by (auto simp add: good_task_def split: task.splits sum.splits)

lemma calls_health_GET:
  assumes "app s = app main_module" "req_method rq = ''GET''" "req_path rq = ''/health''"
  shows "calls_health s rq"
proof -
  have "rq = \<lparr>req_method = ''GET'', req_path = ''/health'', req_query = req_query rq,
      req_headers = req_headers rq, req_body = req_body rq\<rparr>"
    using assms(2,3) by (cases rq) simp
  then have "find_route (routes (app main_module)) rq None =
      Full \<lparr>route_path = ''/health'', route_methods = [''GET''], route_endpoint = Health\<rparr>"
    using find_health by metis
  then show ?thesis by (simp add: calls_health_def assms(1))
qed

lemma good_step:
  assumes g: "good h (s, ts)" and i: "i < length ts"
  shows "good h (snd (step_task s (ts ! i)), ts[i := fst (step_task s (ts ! i))]) \<and>
         phase (fst (step_task s (ts ! i))) = min 2 (Suc (phase (ts ! i)))"
proof -
  let ?P = "[(''status'', ''ok''), (''service'', ''brain''), (''version'', ''0.1.0'')]"
  from g have app: "app s = app main_module" and tk: "take (length h) (heap s) = h"
    and le: "length h \<le> length (heap s)"
    and cells: "list_all (\<lambda>cell. cell = ?P) (drop (length h) (heap s))"
    and tasks: "list_all (good_task (length h) (length (heap s))) ts"
    by (simp_all add: good_def)
  from tasks i have ti: "good_task (length h) (length (heap s)) (ts ! i)"
    by (simp add: list_all_length)
  show ?thesis
  proof (cases "ts ! i")
    case (Received rq)
    with ti have "req_method rq = ''GET''" "req_path rq = ''/health''"
      by (simp_all add: good_task_def)
    with app have "calls_health s rq" by (rule calls_health_GET)
    then have st: "begin_request s rq =
        (Returned (Inr (length (heap s))), s\<lparr>heap := heap s @ [?P]\<rparr>)"
      by (simp add: begin_request_def health_eq)
    have "list_all (good_task (length h) (Suc (length (heap s)))) ts"
      using tasks good_task_mono [where hi' = "Suc (length (heap s))"]
      by (auto simp add: list_all_iff)
    then have "list_all (good_task (length h) (Suc (length (heap s))))
        (ts[i := Returned (Inr (length (heap s)))])"
      using le by (auto simp add: list_all_iff good_task_def dest!: set_update_subset_insert [THEN subsetD])
    then show ?thesis
      using app tk le cells by (simp add: st good_def Received)
  next
    case (Returned res)
    with ti obtain d where d: "res = Inr d" "length h \<le> d" "d < length (heap s)"
      by (auto simp add: good_task_def split: sum.splits)
    have "heap s ! d = ?P"
    proof -
      have "d - length h < length (drop (length h) (heap s))"
        using d by simp
      with cells have "drop (length h) (heap s) ! (d - length h) = ?P"
        unfolding list_all_length by blast
      moreover have "drop (length h) (heap s) ! (d - length h) = heap s ! d"
        using d by simp
      ultimately show ?thesis by simp
    qed
    then have st: "finish_request s res = JSONResponse 200 ?P"
      using d by (simp add: finish_request_def deref_def)
    have "list_all (good_task (length h) (length (heap s))) (ts[i := Sent (JSONResponse 200 ?P)])"
      using tasks by (auto simp add: list_all_iff good_task_def dest!: set_update_subset_insert [THEN subsetD])
    then show ?thesis
      using app tk le cells by (simp add: st good_def Returned)
  next
    case (Sent resp)
    then have "ts[i := fst (step_task s (ts ! i))] = ts"
      by (metis fst_conv list_update_id step_task.simps(3))
    then show ?thesis using g by (simp add: Sent)
  qed
qed

lemma phase_le: "phase t \<le> 2"
  by (cases t) simp_all

lemma good_run:
  "good h (s, ts) \<Longrightarrow> good h (run sched (s, ts)) \<and>
     length (snd (run sched (s, ts))) = length ts \<and>
     (\<forall>i < length ts. phase (snd (run sched (s, ts)) ! i) = min 2 (phase (ts ! i) + count_list sched i))"
proof (induction sched arbitrary: s ts)
  case Nil
  then show ?case by (simp add: phase_le)
next
  case (Cons j sched)
  show ?case
  proof (cases "j < length ts")
    case False
    then have "run (j # sched) (s, ts) = run sched (s, ts)" by simp
    moreover have "\<forall>i < length ts. count_list (j # sched) i = count_list sched i"
      using False by auto
    ultimately show ?thesis using Cons.IH [OF Cons.prems] by simp
  next
    case True
    let ?t = "fst (step_task s (ts ! j))" and ?s = "snd (step_task s (ts ! j))"
    have r: "run (j # sched) (s, ts) = run sched (?s, ts[j := ?t])"
      using True by (simp split: prod.splits)
    from good_step [OF Cons.prems True]
    have g: "good h (?s, ts[j := ?t])" and p: "phase ?t = min 2 (Suc (phase (ts ! j)))"
      by simp_all
    from Cons.IH [OF g]
    have ih: "good h (run sched (?s, ts[j := ?t]))"
      "length (snd (run sched (?s, ts[j := ?t]))) = length ts"
      "\<forall>i < length ts. phase (snd (run sched (?s, ts[j := ?t])) ! i) =
          min 2 (phase (ts[j := ?t] ! i) + count_list sched i)"
      by simp_all
    have "\<forall>i < length ts. phase (snd (run sched (?s, ts[j := ?t])) ! i) =
        min 2 (phase (ts ! i) + count_list (j # sched) i)"
    proof (intro allI impI)
      fix i assume "i < length ts"
      with ih(3) have e: "phase (snd (run sched (?s, ts[j := ?t])) ! i) =
          min 2 (phase (ts[j := ?t] ! i) + count_list sched i)" by simp
      show "phase (snd (run sched (?s, ts[j := ?t])) ! i) =
        min 2 (phase (ts ! i) + count_list (j # sched) i)"
      proof (cases "i = j")
        case True
        with e p \<open>i < length ts\<close> show ?thesis by (simp add: min_def)
      next
        case False
        with e show ?thesis by simp
      qed
    qed
    with ih(1,2) show ?thesis unfolding r by simp
  qed
qed

lemma good_initial: "good h (main_module\<lparr>heap := h\<rparr>, in_flight args)"
  by (auto simp add: good_def in_flight_def good_task_def GET_health_def list_all_iff)

lemma count_list_upt: "count_list [0..<n] i = (if i < n then 1 else 0)"
  by (induction n) auto

text \<open>
  C6. Any number of \<open>GET /health\<close> requests in flight at the same time, their steps
  interleaved in any order on the shared state and without a lock: every response that
  has been sent is the 200 response with the health payload; every request that has
  been given its two steps has been answered with it, whatever the other requests did in
  between; no request is lost; and the application object and the objects that existed
  before are as they were.
\<close>

theorem concurrent_health:
  \<open>list_all (\<lambda>t. case t of Received rq \<Rightarrow> True | Returned res \<Rightarrow> True
       | Sent resp \<Rightarrow> resp = \<lparr>status_code = 200,
           resp_body = Bytes ''{"status":"ok","service":"brain","version":"0.1.0"}''\<rparr>)
     (snd (run sched (main_module\<lparr>heap := h\<rparr>, in_flight args))) \<and>
   (\<forall>i < length args. 2 \<le> count_list sched i \<longrightarrow>
      snd (run sched (main_module\<lparr>heap := h\<rparr>, in_flight args)) ! i =
        Sent \<lparr>status_code = 200,
          resp_body = Bytes ''{"status":"ok","service":"brain","version":"0.1.0"}''\<rparr>) \<and>
   length (snd (run sched (main_module\<lparr>heap := h\<rparr>, in_flight args))) = length args \<and>
   app (fst (run sched (main_module\<lparr>heap := h\<rparr>, in_flight args))) = app main_module \<and>
   take (length h) (heap (fst (run sched (main_module\<lparr>heap := h\<rparr>, in_flight args)))) = h\<close>
proof -
  let ?c = "run sched (main_module\<lparr>heap := h\<rparr>, in_flight args)"
  let ?ok = "JSONResponse 200 [(''status'', ''ok''), (''service'', ''brain''), (''version'', ''0.1.0'')]"
  have ok: \<open>?ok = \<lparr>status_code = 200,
      resp_body = Bytes ''{"status":"ok","service":"brain","version":"0.1.0"}''\<rparr>\<close>
    by (simp add: JSONResponse_def json_health)
  have len0: "length (in_flight args) = length args"
    by (simp add: in_flight_def)
  from good_run [OF good_initial [of h args], of sched]
  have g: "good h ?c" and len: "length (snd ?c) = length args"
    and ph: "\<forall>i < length args. phase (snd ?c ! i) =
        min 2 (phase (in_flight args ! i) + count_list sched i)"
    by (simp_all add: len0)
  from g have tasks: "list_all (good_task (length h) (length (heap (fst ?c)))) (snd ?c)"
    and app: "app (fst ?c) = app main_module" and tk: "take (length h) (heap (fst ?c)) = h"
    by (simp_all add: good_def)
  have sent: "\<And>t resp. t \<in> set (snd ?c) \<Longrightarrow> t = Sent resp \<Longrightarrow> resp = ?ok"
    using tasks by (auto simp add: list_all_iff good_task_def)
  have a: "list_all (\<lambda>t. case t of Received rq \<Rightarrow> True | Returned res \<Rightarrow> True
       | Sent resp \<Rightarrow> resp = ?ok) (snd ?c)"
    using sent by (auto simp add: list_all_iff split: task.splits)
  have b: "\<forall>i < length args. 2 \<le> count_list sched i \<longrightarrow> snd ?c ! i = Sent ?ok"
  proof (intro allI impI)
    fix i assume i: "i < length args" and c: "2 \<le> count_list sched i"
    have "in_flight args ! i = Received (case args ! i of (q, hs, b) \<Rightarrow> GET_health q hs b)"
      using i by (simp add: in_flight_def split: prod.splits)
    then have "phase (in_flight args ! i) = 0" by simp
    with ph i c have "phase (snd ?c ! i) = 2" by simp
    then obtain resp where r: "snd ?c ! i = Sent resp"
      by (cases "snd ?c ! i") simp_all
    moreover have "snd ?c ! i \<in> set (snd ?c)"
      using i len by simp
    ultimately have "resp = ?ok" using sent by blast
    with r show "snd ?c ! i = Sent ?ok" by simp
  qed
  from a b len app tk show ?thesis unfolding ok by blast
qed

text \<open>
  The statement at 100 requests that all call the handler before any response is built,
  and at three requests whose steps alternate.
\<close>

theorem concurrent_health_witness:
  \<open>(99::nat) < length (replicate 100 ([] :: (string \<times> string) list, [] :: (string \<times> string) list, [] :: string)) \<and>
   2 \<le> count_list ([0..<100] @ [0..<100]) (99::nat) \<and>
   snd (run ([0..<100] @ [0..<100])
         (main_module\<lparr>heap := []\<rparr>, in_flight (replicate 100 ([], [], [])))) ! 99 =
     Sent \<lparr>status_code = 200,
       resp_body = Bytes ''{"status":"ok","service":"brain","version":"0.1.0"}''\<rparr> \<and>
   (1::nat) < length [([] :: (string \<times> string) list, [] :: (string \<times> string) list, [] :: string), ([], [], []), ([], [], [])] \<and>
   2 \<le> count_list [0, 1, 0, 2, 2, 1] (1::nat) \<and>
   snd (run [0, 1, 0, 2, 2, 1]
         (main_module\<lparr>heap := []\<rparr>, in_flight [([], [], []), ([], [], []), ([], [], [])])) ! 1 =
     Sent \<lparr>status_code = 200,
       resp_body = Bytes ''{"status":"ok","service":"brain","version":"0.1.0"}''\<rparr>\<close>
proof -
  have h1: "(99::nat) < length (replicate 100 ([] :: (string \<times> string) list, [] :: (string \<times> string) list, [] :: string))"
    by simp
  have h2: "2 \<le> count_list ([0..<100] @ [0..<100]) (99::nat)"
    by (simp add: count_list_upt del: upt_Suc)
  have h3: "(1::nat) < length [([] :: (string \<times> string) list, [] :: (string \<times> string) list, [] :: string), ([], [], []), ([], [], [])]"
    by simp
  have h4: "2 \<le> count_list [0, 1, 0, 2, 2, 1] (1::nat)"
    by simp
  show ?thesis
    using concurrent_health [of "[0..<100] @ [0..<100]" "[]" "replicate 100 ([], [], [])"]
      concurrent_health [of "[0, 1, 0, 2, 2, 1]" "[]" "[([], [], []), ([], [], []), ([], [], [])]"]
      h1 h2 h3 h4
    by blast
qed

subsection \<open>Every other request\<close>

text \<open>
  C5, as the specification states it, says that every request other than \<open>GET /health\<close>
  is answered with 404 or 405 and that \<open>GET /health\<close> is the only registered route. The
  application is built by the framework's constructor with the documentation pages at
  their defaults, so the route list has five entries and \<open>GET /docs\<close> is answered with
  status 200 and the Swagger page; and the router answers \<open>GET /health/\<close> with a
  redirect.
\<close>

theorem docs_request_counterexample:
  "req_path docs_request \<noteq> ''/health'' \<and>
   fst (handle main_module docs_request) =
     \<lparr>status_code = 200, resp_body = Document Swagger_ui_html\<rparr> \<and>
   status_code (fst (handle main_module docs_request)) \<notin> {404, 405} \<and>
   length (routes (app main_module)) = 5 \<and>
   req_path health_slash_request \<noteq> ''/health'' \<and>
   status_code (fst (handle main_module health_slash_request)) = 307"
  by (simp add: docs_request_def health_slash_request_def handle_def routes_main matches_def
      path_regex_match_def run_endpoint_def redirects_def redirect_path_def rstrip_slash_def
      RedirectResponse_def)

text \<open>
  C5, amended. A request that the route \<open>GET /health\<close> does not match (its method is not
  \<open>GET\<close>, or the pattern of \<open>/health\<close> does not match its path) never gets the health
  payload. A request whose path some route matches, but no route under its method, gets
  405. A request whose path matches no route, and for which the router finds no route to
  redirect to after adjusting the trailing slash, gets 404. The routes of the
  application are the four documentation routes \<open>/openapi.json\<close>, \<open>/docs\<close>,
  \<open>/docs/oauth2-redirect\<close> and \<open>/redoc\<close> of the constructor, each under \<open>GET\<close> and
  \<open>HEAD\<close>, followed by \<open>GET /health\<close>, the only route the module registers.
\<close>

theorem other_requests:
  \<open>(\<not> (req_method rq = ''GET'' \<and> path_regex_match ''/health'' (req_path rq)) \<longrightarrow>
      resp_body (fst (handle (main_module\<lparr>heap := h\<rparr>) rq))
        \<noteq> Bytes ''{"status":"ok","service":"brain","version":"0.1.0"}'') \<and>
   (list_all (\<lambda>r. matches r rq \<noteq> FULL) (routes (app main_module)) \<and>
    list_ex (\<lambda>r. matches r rq = PARTIAL) (routes (app main_module)) \<longrightarrow>
      status_code (fst (handle (main_module\<lparr>heap := h\<rparr>) rq)) = 405) \<and>
   (list_all (\<lambda>r. matches r rq = NONE) (routes (app main_module)) \<and>
    \<not> redirects (routes (app main_module)) rq \<longrightarrow>
      status_code (fst (handle (main_module\<lparr>heap := h\<rparr>) rq)) = 404) \<and>
   routes (app main_module) =
     routes (FastAPI ''Voice Web Agent Brain'') @
       [\<lparr>route_path = ''/health'', route_methods = [''GET''], route_endpoint = Health\<rparr>] \<and>
   map (\<lambda>r. (route_path r, route_methods r)) (routes (FastAPI ''Voice Web Agent Brain'')) =
     [(''/openapi.json'', [''GET'', ''HEAD'']), (''/docs'', [''GET'', ''HEAD'']),
      (''/docs/oauth2-redirect'', [''GET'', ''HEAD'']), (''/redoc'', [''GET'', ''HEAD''])]\<close>
proof -
  have a: \<open>\<not> (req_method rq = ''GET'' \<and> path_regex_match ''/health'' (req_path rq)) \<longrightarrow>
      resp_body (fst (handle (main_module\<lparr>heap := h\<rparr>) rq))
        \<noteq> Bytes ''{"status":"ok","service":"brain","version":"0.1.0"}''\<close>
    using no_payload by blast
  have b: "list_all (\<lambda>r. matches r rq \<noteq> FULL) (routes (app main_module)) \<and>
    list_ex (\<lambda>r. matches r rq = PARTIAL) (routes (app main_module)) \<longrightarrow>
      status_code (fst (handle (main_module\<lparr>heap := h\<rparr>) rq)) = 405"
    using not_allowed [of rq h]
    by (auto simp add: method_not_allowed_def JSONResponse_def)
  have c: "list_all (\<lambda>r. matches r rq = NONE) (routes (app main_module)) \<and>
    \<not> redirects (routes (app main_module)) rq \<longrightarrow>
      status_code (fst (handle (main_module\<lparr>heap := h\<rparr>) rq)) = 404"
    using nowhere [of rq h]
    by (auto simp add: not_found_def JSONResponse_def)
  have d: "routes (app main_module) =
     routes (FastAPI ''Voice Web Agent Brain'') @
       [\<lparr>route_path = ''/health'', route_methods = [''GET''], route_endpoint = Health\<rparr>]"
    by (simp add: main_module_def get_def)
  have e: "map (\<lambda>r. (route_path r, route_methods r))
      (routes (FastAPI ''Voice Web Agent Brain'')) =
     [(''/openapi.json'', [''GET'', ''HEAD'']), (''/docs'', [''GET'', ''HEAD'']),
      (''/docs/oauth2-redirect'', [''GET'', ''HEAD'']), (''/redoc'', [''GET'', ''HEAD''])]"
    by (simp add: FastAPI_def add_route_def)
  from a b c d e show ?thesis by blast
qed

text \<open>
  The amended statement at two requests: \<open>GET /nowhere\<close>, which no route matches, gets
  404, and \<open>POST /health\<close>, which the health route matches in its path only, gets 405;
  neither gets the health payload.
\<close>

theorem other_requests_witness:
  \<open>\<not> (req_method nowhere_request = ''GET'' \<and>
        path_regex_match ''/health'' (req_path nowhere_request)) \<and>
   list_all (\<lambda>r. matches r nowhere_request = NONE) (routes (app main_module)) \<and>
   \<not> redirects (routes (app main_module)) nowhere_request \<and>
   resp_body (fst (handle (main_module\<lparr>heap := []\<rparr>) nowhere_request))
     \<noteq> Bytes ''{"status":"ok","service":"brain","version":"0.1.0"}'' \<and>
   status_code (fst (handle (main_module\<lparr>heap := []\<rparr>) nowhere_request)) = 404 \<and>
   \<not> (req_method post_health_request = ''GET'' \<and>
        path_regex_match ''/health'' (req_path post_health_request)) \<and>
   list_all (\<lambda>r. matches r post_health_request \<noteq> FULL) (routes (app main_module)) \<and>
   list_ex (\<lambda>r. matches r post_health_request = PARTIAL) (routes (app main_module)) \<and>
   resp_body (fst (handle (main_module\<lparr>heap := []\<rparr>) post_health_request))
     \<noteq> Bytes ''{"status":"ok","service":"brain","version":"0.1.0"}'' \<and>
   status_code (fst (handle (main_module\<lparr>heap := []\<rparr>) post_health_request)) = 405\<close>
proof -
  have n1: "\<not> (req_method nowhere_request = ''GET'' \<and>
        path_regex_match ''/health'' (req_path nowhere_request))"
    by (simp add: nowhere_request_def path_regex_match_def)
  have n2: "list_all (\<lambda>r. matches r nowhere_request = NONE) (routes (app main_module))"
    by (simp add: nowhere_request_def routes_main matches_def path_regex_match_def)
  have n3: "\<not> redirects (routes (app main_module)) nowhere_request"
    by (simp add: nowhere_request_def routes_main redirects_def redirect_path_def matches_def
        path_regex_match_def)
  have p1: "\<not> (req_method post_health_request = ''GET'' \<and>
        path_regex_match ''/health'' (req_path post_health_request))"
    by (simp add: post_health_request_def)
  have p2: "list_all (\<lambda>r. matches r post_health_request \<noteq> FULL) (routes (app main_module))"
    by (simp add: post_health_request_def routes_main matches_def path_regex_match_def)
  have p3: "list_ex (\<lambda>r. matches r post_health_request = PARTIAL) (routes (app main_module))"
    by (simp add: post_health_request_def routes_main matches_def path_regex_match_def)
  show ?thesis
    using other_requests [of nowhere_request "[]"] other_requests [of post_health_request "[]"]
      n1 n2 n3 p1 p2 p3
    by simp
qed

end
